theory Spec2Isabelle
  imports Complex_Main
begin

text \<open>
  The feature and label construction, the chronological split and the headline retrieval
  of the notebooks \<open>stock_sentiment_prediction\<close> (base) and
  \<open>enhanced_stock_sentiment_prediction\<close> (enhanced). The pandas, scikit-learn and
  requests calls of the notebooks are modelled by what they return on the values the
  notebooks pass. Close prices and sentiment scores are finite numbers; the columns
  computed from them are float cells, which can be NaN or infinite. The other price columns
  of the base notebook's loader (open, high, low, volume) take no part in any computation
  and are taken to hold no missing value.
\<close>

section \<open>Floating-point cells\<close>

text \<open>
  The notebooks keep every numeric column as a pandas Series of float64 cells. A cell is
  modelled as a finite value, one of the two zeros, or one of the three IEEE special
  values: \<open>Fin 0\<close> is \<open>+0.0\<close> and \<open>NZero\<close> is \<open>-0.0\<close>. The signs of zeros and
  infinities and the NaN rules are those of IEEE arithmetic. Arithmetic on finite values is
  exact (over the reals): rounding, underflow and overflow are not modelled.
\<close>

datatype fl = Fin real | NZero | PInf | NInf | NaN

fun signbit :: "fl \<Rightarrow> bool" where
  "signbit (Fin a) = (a < 0)"
| "signbit NZero = True"
| "signbit PInf = False"
| "signbit NInf = True"
| "signbit NaN = False"

fun is_zero :: "fl \<Rightarrow> bool" where
  "is_zero (Fin a) = (a = 0)"
| "is_zero NZero = True"
| "is_zero x = False"

fun is_inf :: "fl \<Rightarrow> bool" where
  "is_inf PInf = True"
| "is_inf NInf = True"
| "is_inf x = False"

fun fl_neg :: "fl \<Rightarrow> fl" where
  "fl_neg (Fin a) = (if a = 0 then NZero else Fin (- a))"
| "fl_neg NZero = Fin 0"
| "fl_neg PInf = NInf"
| "fl_neg NInf = PInf"
| "fl_neg NaN = NaN"

text \<open>A sum is \<open>-0.0\<close> only when both operands are; opposite infinities give NaN.\<close>

fun fl_add :: "fl \<Rightarrow> fl \<Rightarrow> fl" where
  "fl_add NaN y = NaN"
| "fl_add x NaN = NaN"
| "fl_add PInf NInf = NaN"
| "fl_add NInf PInf = NaN"
| "fl_add PInf y = PInf"
| "fl_add x PInf = PInf"
| "fl_add NInf y = NInf"
| "fl_add x NInf = NInf"
| "fl_add NZero NZero = NZero"
| "fl_add NZero (Fin b) = Fin b"
| "fl_add (Fin a) NZero = Fin a"
| "fl_add (Fin a) (Fin b) = Fin (a + b)"

definition fl_sub :: "fl \<Rightarrow> fl \<Rightarrow> fl" where
  "fl_sub x y = fl_add x (fl_neg y)"

text \<open>
  Division: zero over zero and infinity over infinity are NaN; otherwise a zero divisor or
  an infinite dividend gives an infinity and a zero dividend or an infinite divisor gives a
  zero, each with the sign of the quotient.
\<close>

definition fl_div :: "fl \<Rightarrow> fl \<Rightarrow> fl" where
  "fl_div x y =
     (if x = NaN \<or> y = NaN then NaN
      else if (is_zero x \<and> is_zero y) \<or> (is_inf x \<and> is_inf y) then NaN
      else if is_zero y \<or> is_inf x then (if signbit x = signbit y then PInf else NInf)
      else if is_zero x \<or> is_inf y then (if signbit x = signbit y then Fin 0 else NZero)
      else (case (x, y) of (Fin a, Fin b) \<Rightarrow> Fin (a / b) | other \<Rightarrow> NaN))"

text \<open>Comparisons with a NaN operand are False; the two zeros compare equal.\<close>

fun fl_lt :: "fl \<Rightarrow> fl \<Rightarrow> bool" where
  "fl_lt NaN y = False"
| "fl_lt x NaN = False"
| "fl_lt x NInf = False"
| "fl_lt NInf y = True"
| "fl_lt PInf y = False"
| "fl_lt x PInf = True"
| "fl_lt (Fin a) (Fin b) = (a < b)"
| "fl_lt (Fin a) NZero = (a < 0)"
| "fl_lt NZero (Fin b) = (0 < b)"
| "fl_lt NZero NZero = False"

definition fl_gt :: "fl \<Rightarrow> fl \<Rightarrow> bool" where
  "fl_gt x y = fl_lt y x"

definition isna :: "fl \<Rightarrow> bool" where
  "isna x = (x = NaN)"

section \<open>Series operations\<close>

text \<open>\<open>Series.diff()\<close>: the first cell is NaN, cell \<open>i\<close> is \<open>xs[i] - xs[i-1]\<close>.\<close>

fun diff :: "fl list \<Rightarrow> fl list" where
  "diff [] = []"
| "diff (x # xs) = NaN # map2 (\<lambda>prev cur. fl_sub cur prev) (x # xs) xs"

text \<open>\<open>s.where(cond, other)\<close>: keep the cell where the condition holds, else \<open>other\<close>.\<close>

definition where_cond :: "(fl \<Rightarrow> bool) \<Rightarrow> fl \<Rightarrow> fl list \<Rightarrow> fl list" where
  "where_cond cond other xs = map (\<lambda>x. if cond x then x else other) xs"

text \<open>
  \<open>s.rolling(window=w).mean()\<close> with the default \<open>min_periods = w\<close>: cell \<open>i\<close> is NaN
  until \<open>w\<close> observations are there and whenever the trailing window holds a NaN; else it
  is the sum of the cells of the window over their number. The cells are added to the first
  one, with no zero in front, so a window of \<open>-0.0\<close> cells has the mean \<open>-0.0\<close>: pandas
  returns the common value of a window of equal cells. (The notebooks roll over finite
  cells only.)
\<close>

fun fl_sum :: "fl list \<Rightarrow> fl" where
  "fl_sum [] = Fin 0"
| "fl_sum (x # xs) = foldl fl_add x xs"

definition window_mean :: "fl list \<Rightarrow> fl" where
  "window_mean ws =
     (if list_ex isna ws then NaN else fl_div (fl_sum ws) (Fin (real (length ws))))"

definition rolling_mean :: "nat \<Rightarrow> fl list \<Rightarrow> fl list" where
  "rolling_mean w xs =
     map (\<lambda>i. if i + 1 < w then NaN else window_mean (take w (drop (i + 1 - w) xs)))
       [0..<length xs]"

text \<open>\<open>s.shift(-1)\<close>: every cell moves one row up, the last cell becomes NaN.\<close>

fun shift_m1 :: "fl list \<Rightarrow> fl list" where
  "shift_m1 [] = []"
| "shift_m1 (x # xs) = xs @ [NaN]"

section \<open>RSI\<close>

text \<open>
  \<open>compute_RSI(series, period=14)\<close> of the base notebook; \<open>compute_dummy_RSI\<close> of the
  enhanced notebook has the same body. \<open>rsi_gain\<close> and \<open>rsi_loss\<close> are its local
  variables \<open>gain\<close> and \<open>loss\<close>. In \<open>-delta.where(delta < 0, 0)\<close> the minus sign
  applies to the filled series, so a cell that is not a loss is \<open>-0.0\<close>.
\<close>

definition rsi_gain :: "nat \<Rightarrow> fl list \<Rightarrow> fl list" where
  "rsi_gain period series =
     rolling_mean period (where_cond (\<lambda>d. fl_gt d (Fin 0)) (Fin 0) (diff series))"

definition rsi_loss :: "nat \<Rightarrow> fl list \<Rightarrow> fl list" where
  "rsi_loss period series =
     rolling_mean period (map fl_neg (where_cond (\<lambda>d. fl_lt d (Fin 0)) (Fin 0) (diff series)))"

definition rsi_RS :: "nat \<Rightarrow> fl list \<Rightarrow> fl list" where
  "rsi_RS period series = map2 fl_div (rsi_gain period series) (rsi_loss period series)"

definition compute_RSI_period :: "nat \<Rightarrow> fl list \<Rightarrow> fl list" where
  "compute_RSI_period period series =
     map (\<lambda>rs. fl_sub (Fin 100) (fl_div (Fin 100) (fl_add (Fin 1) rs))) (rsi_RS period series)"

definition compute_RSI :: "fl list \<Rightarrow> fl list" where
  "compute_RSI series = compute_RSI_period 14 series"

section \<open>The feature table\<close>

text \<open>
  A price observation as the data loader delivers it: a trading day (its day number) and a
  finite close price. The frame's columns are float cells; \<open>Date\<close> is never missing and
  \<open>Target\<close> is an integer column, which cannot hold NaN.
\<close>

record obs =
  obs_date :: nat
  obs_close :: real

record ind_row =
  Date :: nat
  Close :: fl
  MA20 :: fl
  MA50 :: fl
  RSI :: fl

record sent_row = ind_row +
  Sentiment :: fl

record feature_row = sent_row +
  Target :: int

text \<open>
  The enhanced notebook adds \<open>MA20\<close>, \<open>MA50\<close> and \<open>RSI\<close> to the frame of dates and
  closes. Row \<open>i\<close> of the frame takes cell \<open>i\<close> of every column (all columns have
  the length of the frame).
\<close>

definition indicators :: "obs list \<Rightarrow> ind_row list" where
  "indicators os =
     (let dates = map obs_date os;
          closes = map Fin (map obs_close os);
          ma20 = rolling_mean 20 closes;
          ma50 = rolling_mean 50 closes;
          rsi = compute_RSI closes
      in map (\<lambda>(d, c, a, b, r). \<lparr>Date = d, Close = c, MA20 = a, MA50 = b, RSI = r\<rparr>)
           (zip dates (zip closes (zip ma20 (zip ma50 rsi)))))"

text \<open>
  The base notebook scores one headline per trading day before it adds the indicators, so
  its frame has the \<open>Sentiment\<close> column already; \<open>sent i\<close> is the (finite) compound score of
  row \<open>i\<close>.
\<close>

definition indicators_base :: "obs list \<Rightarrow> (nat \<Rightarrow> real) \<Rightarrow> sent_row list" where
  "indicators_base os sent =
     (let dates = map obs_date os;
          closes = map Fin (map obs_close os);
          sentiment = map Fin (map sent [0..<length os]);
          ma20 = rolling_mean 20 closes;
          ma50 = rolling_mean 50 closes;
          rsi = compute_RSI closes
      in map (\<lambda>(d, c, s, a, b, r).
                \<lparr>Date = d, Close = c, MA20 = a, MA50 = b, RSI = r, Sentiment = s\<rparr>)
           (zip dates (zip closes (zip sentiment (zip ma20 (zip ma50 rsi))))))"

text \<open>\<open>data['Sentiment'] = avg_sentiment\<close>: one scalar for every row.\<close>

definition add_sentiment :: "real \<Rightarrow> ind_row list \<Rightarrow> sent_row list" where
  "add_sentiment avg_sentiment rows =
     map (\<lambda>r. \<lparr>Date = Date r, Close = Close r, MA20 = MA20 r, MA50 = MA50 r, RSI = RSI r,
                Sentiment = Fin avg_sentiment\<rparr>) rows"

text \<open>\<open>dropna()\<close>: a row stays when none of its float cells is NaN (an infinity stays).\<close>

definition dropna :: "('r \<Rightarrow> fl list) \<Rightarrow> 'r list \<Rightarrow> 'r list" where
  "dropna cells rows = filter (\<lambda>r. \<not> list_ex isna (cells r)) rows"

definition ind_cells :: "'a ind_row_scheme \<Rightarrow> fl list" where
  "ind_cells r = [Close r, MA20 r, MA50 r, RSI r]"

definition sent_cells :: "'a sent_row_scheme \<Rightarrow> fl list" where
  "sent_cells r = [Close r, MA20 r, MA50 r, RSI r, Sentiment r]"

text \<open>\<open>df['Target'] = (df['Close'].shift(-1) > df['Close']).astype(int)\<close>\<close>

definition target_column :: "fl list \<Rightarrow> int list" where
  "target_column closes =
     map2 (\<lambda>nxt cur. if fl_gt nxt cur then 1 else 0) (shift_m1 closes) closes"

definition add_target :: "sent_row list \<Rightarrow> feature_row list" where
  "add_target rows =
     map2 (\<lambda>r t. \<lparr>Date = Date r, Close = Close r, MA20 = MA20 r, MA50 = MA50 r, RSI = RSI r,
                   Sentiment = Sentiment r, Target = t\<rparr>) rows (target_column (map Close rows))"

definition feature_table_base :: "obs list \<Rightarrow> (nat \<Rightarrow> real) \<Rightarrow> feature_row list" where
  "feature_table_base os sent =
     dropna sent_cells (add_target (dropna sent_cells (indicators_base os sent)))"

definition feature_table_enhanced :: "obs list \<Rightarrow> real \<Rightarrow> feature_row list" where
  "feature_table_enhanced os avg_sentiment =
     dropna sent_cells
       (add_target (add_sentiment avg_sentiment (dropna ind_cells (indicators os))))"

section \<open>The splitter\<close>

datatype error = ValueError | KeyError | TypeError | JSONDecodeError | ConnectionError

text \<open>
  \<open>train_test_split(X, y, test_size=0.2, shuffle=False)\<close> of scikit-learn: with
  \<open>n_test = ceil(test_size * n_samples)\<close> and \<open>n_train = n_samples - n_test\<close> the training
  rows are the positions \<open>arange(n_train)\<close> and the test rows
  \<open>arange(n_train, n_train + n_test)\<close>; an empty training set raises ValueError. \<open>X\<close> and
  \<open>y\<close> are columns of one frame and are cut at the same positions, so the model splits the
  rows of the frame. The product \<open>test_size * n_samples\<close> is taken exactly.
\<close>

definition train_test_split :: "'a list \<Rightarrow> error + 'a list \<times> 'a list" where
  "train_test_split arr =
     (let n_samples = length arr;
          n_test = nat \<lceil>(2 / 10) * real n_samples\<rceil>;
          n_train = n_samples - n_test
      in if n_train = 0 then Inl ValueError
         else Inr (take n_train arr, take n_test (drop n_train arr)))"

text \<open>A rising and a flat demonstration series, one close per day.\<close>

definition rising :: "nat \<Rightarrow> obs list" where
  "rising n = map (\<lambda>i. \<lparr>obs_date = i, obs_close = 100 + real i\<rparr>) [0..<n]"

definition flat :: "nat \<Rightarrow> obs list" where
  "flat n = map (\<lambda>i. \<lparr>obs_date = i, obs_close = 100\<rparr>) [0..<n]"

section \<open>The reference RSI\<close>

text \<open>
  The indicator as the design document words it, row by row on the finite closes: the
  day-over-day delta; the gain (the delta when it is positive, zero otherwise) and the loss
  (the absolute value of the delta when it is negative, zero otherwise); the mean of each
  over the trailing 14 rows; and \<open>100 - 100 / (1 + mean_gain / mean_loss)\<close> in float
  arithmetic. Row 0 has no delta, hence falls under "zero otherwise".
\<close>

definition ref_delta :: "real list \<Rightarrow> nat \<Rightarrow> real" where
  "ref_delta cs i = cs ! i - cs ! (i - 1)"

definition ref_gain :: "real list \<Rightarrow> nat \<Rightarrow> real" where
  "ref_gain cs i = (if 0 < i \<and> 0 < ref_delta cs i then ref_delta cs i else 0)"

definition ref_loss :: "real list \<Rightarrow> nat \<Rightarrow> real" where
  "ref_loss cs i = (if 0 < i \<and> ref_delta cs i < 0 then \<bar>ref_delta cs i\<bar> else 0)"

definition ref_mean14 :: "(nat \<Rightarrow> real) \<Rightarrow> nat \<Rightarrow> real" where
  "ref_mean14 f i = sum_list (map f [i - 13..<i + 1]) / 14"

definition rsi_reference :: "real list \<Rightarrow> nat \<Rightarrow> fl" where
  "rsi_reference cs i =
     fl_sub (Fin 100)
       (fl_div (Fin 100)
          (fl_add (Fin 1)
             (fl_div (Fin (ref_mean14 (ref_gain cs) i)) (Fin (ref_mean14 (ref_loss cs) i)))))"

section \<open>Headline retrieval\<close>

text \<open>
  The decoded body of a response, as \<open>response.json()\<close> returns it (the keys of an object
  are distinct), and the two fields of a response the notebook reads; \<open>body\<close> is None when
  the body does not decode.
\<close>

datatype json =
  JNull | JBool bool | JNum real | JStr string | JArr "json list" | JObj "(string \<times> json) list"

record response =
  status_code :: int
  body :: "json option"

text \<open>\<open>v[k]\<close> with a string key: only a dict can answer, and only for a key it has.\<close>

fun getitem :: "json \<Rightarrow> string \<Rightarrow> error + json" where
  "getitem (JObj kvs) k = (case map_of kvs k of None \<Rightarrow> Inl KeyError | Some v \<Rightarrow> Inr v)"
| "getitem v k = Inl TypeError"

text \<open>\<open>for x in v\<close>: a list gives its items, a dict its keys, a string its characters.\<close>

fun iter_json :: "json \<Rightarrow> error + json list" where
  "iter_json (JArr xs) = Inr xs"
| "iter_json (JObj kvs) = Inr (map (\<lambda>kv. JStr (fst kv)) kvs)"
| "iter_json (JStr s) = Inr (map (\<lambda>c. JStr [c]) s)"
| "iter_json v = Inl TypeError"

text \<open>\<open>[article['title'] for article in articles]\<close>\<close>

fun titles :: "json list \<Rightarrow> error + json list" where
  "titles [] = Inr []"
| "titles (article # articles) =
     (case getitem article ''title'' of
        Inl e \<Rightarrow> Inl e
      | Inr t \<Rightarrow> (case titles articles of Inl e \<Rightarrow> Inl e | Inr ts \<Rightarrow> Inr (t # ts)))"

definition news_url :: "string \<Rightarrow> string \<Rightarrow> string \<Rightarrow> string \<Rightarrow> string" where
  "news_url query from_date to_date api_key =
     ''https://newsapi.org/v2/everything?'' @
     ''q='' @ query @ ''&from='' @ from_date @ ''&to='' @ to_date @ ''&'' @
     ''sortBy=publishedAt&language=en&'' @
     ''apiKey='' @ api_key"

text \<open>
  \<open>fetch_live_headlines(query, from_date, to_date, api_key)\<close>; the network is the
  parameter \<open>requests_get\<close>, which answers a URL with a response or raises.
\<close>

definition fetch_live_headlines ::
  "(string \<Rightarrow> error + response) \<Rightarrow> string \<Rightarrow> string \<Rightarrow> string \<Rightarrow> string \<Rightarrow> error + json list"
where
  "fetch_live_headlines requests_get query from_date to_date api_key =
     (case requests_get (news_url query from_date to_date api_key) of
        Inl e \<Rightarrow> Inl e
      | Inr response \<Rightarrow>
          if status_code response = 200 then
            (case body response of
               None \<Rightarrow> Inl JSONDecodeError
             | Some js \<Rightarrow>
                 (case getitem js ''articles'' of
                    Inl e \<Rightarrow> Inl e
                  | Inr articles \<Rightarrow>
                      (case iter_json articles of Inl e \<Rightarrow> Inl e | Inr arts \<Rightarrow> titles arts)))
          else Inr [])"

definition demo_headlines :: "json list" where
  "demo_headlines =
     [JStr ''Apple launches new product amid market hype'',
      JStr ''Analysts optimistic about AAPL performance'']"

text \<open>The cell around the call: \<open>if not headlines:\<close> puts the simulated headlines in.\<close>

definition live_headlines ::
  "(string \<Rightarrow> error + response) \<Rightarrow> string \<Rightarrow> string \<Rightarrow> error + json list"
where
  "live_headlines requests_get yesterday today =
     (case fetch_live_headlines requests_get ''AAPL'' yesterday today ''YOUR_NEWS_API_KEY'' of
        Inl e \<Rightarrow> Inl e
      | Inr headlines \<Rightarrow> Inr (if headlines = [] then demo_headlines else headlines))"

text \<open>Two demonstration responses: one article found, and an access error.\<close>

definition found_response :: response where
  "found_response =
     \<lparr>status_code = 200,
      body = Some (JObj [(''status'', JStr ''ok''),
               (''articles'', JArr [JObj [(''source'', JNull),
                                          (''title'', JStr ''Apple beats estimates'')]])])\<rparr>"

definition denied_response :: response where
  "denied_response =
     \<lparr>status_code = 401, body = Some (JObj [(''status'', JStr ''error'')])\<rparr>"


section \<open>Facts about the series operations\<close>

lemma length_diff [simp]: "length (diff xs) = length xs"
  by (cases xs) simp_all

lemma nth_diff:
  "i < length xs \<Longrightarrow> diff xs ! i = (if i = 0 then NaN else fl_sub (xs ! i) (xs ! (i - 1)))"
  by (cases xs; cases i) simp_all

lemma length_rolling_mean [simp]: "length (rolling_mean w xs) = length xs"
  by (simp add: rolling_mean_def)

lemma fl_sub_Fin [simp]: "fl_sub (Fin a) (Fin b) = Fin (a - b)"
  by (simp add: fl_sub_def)

lemma fl_div_Fin_pos: "0 < b \<Longrightarrow> fl_div (Fin a) (Fin b) = Fin (a / b)"
  by (simp add: fl_div_def)

lemma fl_div_NZero_pos: "0 < b \<Longrightarrow> fl_div NZero (Fin b) = NZero"
  by (simp add: fl_div_def)

lemma foldl_add_Fin: "foldl fl_add (Fin a) (map Fin rs) = Fin (a + sum_list rs)"
  by (induction rs arbitrary: a) (simp_all add: add.assoc)

lemma fl_sum_Fin: "rs \<noteq> [] \<Longrightarrow> fl_sum (map Fin rs) = Fin (sum_list rs)"
  by (cases rs) (simp_all add: foldl_add_Fin)

lemma no_na_Fin: "\<not> list_ex isna (map Fin rs)"
  by (auto simp: list_ex_iff isna_def)

lemma window_mean_Fin:
  "rs \<noteq> [] \<Longrightarrow> window_mean (map Fin rs) = Fin (sum_list rs / real (length rs))"
  by (simp add: window_mean_def no_na_Fin fl_sum_Fin fl_div_Fin_pos)

lemma nth_rolling_mean_Fin:
  assumes "i < length rs" and "0 < w"
  shows "rolling_mean w (map Fin rs) ! i =
    (if i + 1 < w then NaN else Fin (sum_list (take w (drop (i + 1 - w) rs)) / real w))"
proof (cases "i + 1 < w")
  case True
  with assms show ?thesis by (simp add: rolling_mean_def)
next
  case False
  let ?win = "take w (drop (i + 1 - w) rs)"
  from False assms have len: "length ?win = w" by simp
  with assms have ne: "?win \<noteq> []" by auto
  have "rolling_mean w (map Fin rs) ! i = window_mean (map Fin ?win)"
    using False assms by (simp add: rolling_mean_def take_map drop_map)
  also have "\<dots> = Fin (sum_list ?win / real w)"
    using window_mean_Fin [OF ne] len by simp
  finally show ?thesis using False by simp
qed

text \<open>
  The cells of the loss series: a positive loss, or \<open>-0.0\<close> where there is none. Their
  sums and means keep that shape.
\<close>

lemma foldl_add_loss:
  assumes "0 \<le> a" and "\<forall>l\<in>set ls. 0 \<le> l"
  shows "foldl fl_add (if a = 0 then NZero else Fin a)
      (map (\<lambda>l. if l = 0 then NZero else Fin l) ls) =
    (if a + sum_list ls = 0 then NZero else Fin (a + sum_list ls))"
  using assms
proof (induction ls arbitrary: a)
  case Nil
  then show ?case by simp
next
  case (Cons l ls)
  then have l: "0 \<le> l" and ls: "\<forall>l\<in>set ls. 0 \<le> l" by simp_all
  have step: "fl_add (if a = 0 then NZero else Fin a) (if l = 0 then NZero else Fin l) =
      (if a + l = 0 then NZero else Fin (a + l))"
    using Cons.prems(1) l by auto
  from Cons.prems(1) l have "0 \<le> a + l" by simp
  from Cons.IH [OF this ls] step show ?case by (simp add: add.assoc)
qed

lemma fl_sum_loss:
  assumes "ls \<noteq> []" and "\<forall>l\<in>set ls. 0 \<le> l"
  shows "fl_sum (map (\<lambda>l. if l = 0 then NZero else Fin l) ls) =
    (if sum_list ls = 0 then NZero else Fin (sum_list ls))"
proof -
  from assms(1) obtain l ls' where ls: "ls = l # ls'" by (cases ls) auto
  with assms(2) have "0 \<le> l" and "\<forall>l\<in>set ls'. 0 \<le> l" by simp_all
  from foldl_add_loss [OF this] ls show ?thesis by simp
qed

lemma no_na_loss: "\<not> list_ex isna (map (\<lambda>l. if l = 0 then NZero else Fin l) ls)"
  by (auto simp: list_ex_iff isna_def)

lemma window_mean_loss:
  assumes "ls \<noteq> []" and "\<forall>l\<in>set ls. 0 \<le> l"
  shows "window_mean (map (\<lambda>l. if l = 0 then NZero else Fin l) ls) =
    (if sum_list ls = 0 then NZero else Fin (sum_list ls / real (length ls)))"
  using assms
  by (simp add: window_mean_def no_na_loss fl_sum_loss fl_div_Fin_pos fl_div_NZero_pos)

lemma nth_rolling_mean_loss:
  assumes "i < length ls" and "0 < w" and "\<not> i + 1 < w" and "\<forall>l\<in>set ls. 0 \<le> l"
  shows "rolling_mean w (map (\<lambda>l. if l = 0 then NZero else Fin l) ls) ! i =
    (if sum_list (take w (drop (i + 1 - w) ls)) = 0 then NZero
     else Fin (sum_list (take w (drop (i + 1 - w) ls)) / real w))"
proof -
  let ?win = "take w (drop (i + 1 - w) ls)"
  from assms have len: "length ?win = w" by simp
  with assms have ne: "?win \<noteq> []" by auto
  have nonneg: "\<forall>l\<in>set ?win. 0 \<le> l"
    using assms(4) by (meson in_set_dropD in_set_takeD)
  have "rolling_mean w (map (\<lambda>l. if l = 0 then NZero else Fin l) ls) ! i =
      window_mean (map (\<lambda>l. if l = 0 then NZero else Fin l) ?win)"
    using assms by (simp add: rolling_mean_def take_map drop_map)
  also have "\<dots> = (if sum_list ?win = 0 then NZero else Fin (sum_list ?win / real w))"
    using window_mean_loss [OF ne nonneg] len by simp
  finally show ?thesis .
qed

lemma gains_Fin:
  "where_cond (\<lambda>d. fl_gt d (Fin 0)) (Fin 0) (diff (map Fin cs)) =
     map Fin (map (ref_gain cs) [0..<length cs])"
  by (rule nth_equalityI)
    (auto simp: where_cond_def nth_diff fl_gt_def ref_gain_def ref_delta_def)

lemma losses_cells:
  "map fl_neg (where_cond (\<lambda>d. fl_lt d (Fin 0)) (Fin 0) (diff (map Fin cs))) =
     map (\<lambda>l. if l = 0 then NZero else Fin l) (map (ref_loss cs) [0..<length cs])"
  by (rule nth_equalityI)
    (auto simp: where_cond_def nth_diff ref_loss_def ref_delta_def)

lemma window_upt:
  assumes "i < n" and "13 \<le> i"
  shows "take 14 (drop (i + 1 - 14) (map f [0..<n])) = map f [i - 13..<i + 1]"
proof -
  have "take 14 (drop (i - 13) [0..<n]) = [i - 13..<i + 1]"
    using assms by (simp add: take_upt)
  then show ?thesis using assms by (simp add: take_map drop_map)
qed

lemma ref_gain_nonneg: "0 \<le> ref_gain cs j"
  by (simp add: ref_gain_def)

lemma ref_loss_nonneg: "0 \<le> ref_loss cs j"
  by (simp add: ref_loss_def)

lemma ref_mean14_nonneg: "(\<And>j. 0 \<le> f j) \<Longrightarrow> 0 \<le> ref_mean14 f i"
  unfolding ref_mean14_def by (intro divide_nonneg_nonneg sum_list_nonneg) auto

lemma nth_rsi_gain:
  assumes "i < length cs"
  shows "rsi_gain 14 (map Fin cs) ! i =
    (if i < 13 then NaN else Fin (ref_mean14 (ref_gain cs) i))"
proof -
  let ?gs = "map (ref_gain cs) [0..<length cs]"
  have "rsi_gain 14 (map Fin cs) ! i = rolling_mean 14 (map Fin ?gs) ! i"
    by (simp only: rsi_gain_def gains_Fin)
  also have "\<dots> = (if i + 1 < 14 then NaN
      else Fin (sum_list (take 14 (drop (i + 1 - 14) ?gs)) / real 14))"
    using assms by (intro nth_rolling_mean_Fin) simp_all
  also have "\<dots> = (if i < 13 then NaN else Fin (ref_mean14 (ref_gain cs) i))"
    using assms window_upt [of i "length cs" "ref_gain cs"]
    by (auto simp: ref_mean14_def)
  finally show ?thesis .
qed

text \<open>A zero mean loss is \<open>-0.0\<close>.\<close>

lemma nth_rsi_loss:
  assumes "i < length cs"
  shows "rsi_loss 14 (map Fin cs) ! i =
    (if i < 13 then NaN
     else if ref_mean14 (ref_loss cs) i = 0 then NZero
     else Fin (ref_mean14 (ref_loss cs) i))"
proof (cases "i < 13")
  case True
  with assms show ?thesis
    by (simp add: rsi_loss_def rolling_mean_def where_cond_def)
next
  case False
  let ?ls = "map (ref_loss cs) [0..<length cs]"
  let ?win = "take 14 (drop (i + 1 - 14) ?ls)"
  have win: "?win = map (ref_loss cs) [i - 13..<i + 1]"
    using assms False by (intro window_upt) simp_all
  have "rsi_loss 14 (map Fin cs) ! i =
      rolling_mean 14 (map (\<lambda>l. if l = 0 then NZero else Fin l) ?ls) ! i"
    by (simp only: rsi_loss_def losses_cells)
  also have "\<dots> = (if sum_list ?win = 0 then NZero else Fin (sum_list ?win / real 14))"
    using assms False by (intro nth_rolling_mean_loss) (simp_all add: ref_loss_nonneg)
  also have "\<dots> = (if ref_mean14 (ref_loss cs) i = 0 then NZero
      else Fin (ref_mean14 (ref_loss cs) i))"
    by (simp only: win) (simp add: ref_mean14_def)
  finally show ?thesis using False by simp
qed

lemma length_compute_RSI [simp]: "length (compute_RSI xs) = length xs"
  by (simp add: compute_RSI_def compute_RSI_period_def rsi_RS_def rsi_gain_def rsi_loss_def
      where_cond_def)

lemma nth_rsi_RS:
  assumes "i < length cs"
  shows "rsi_RS 14 (map Fin cs) ! i =
    (if i < 13 then NaN
     else fl_div (Fin (ref_mean14 (ref_gain cs) i))
       (if ref_mean14 (ref_loss cs) i = 0 then NZero else Fin (ref_mean14 (ref_loss cs) i)))"
proof -
  have "length (rsi_gain 14 (map Fin cs)) = length cs" "length (rsi_loss 14 (map Fin cs)) = length cs"
    by (simp_all add: rsi_gain_def rsi_loss_def where_cond_def)
  then show ?thesis
    using assms by (simp add: rsi_RS_def nth_rsi_gain nth_rsi_loss fl_div_def)
qed

text \<open>
  The RSI has the same value whether the zero mean loss is \<open>+0.0\<close>, as in the reference,
  or \<open>-0.0\<close>, as in the code: the ratio is plus or minus infinity, and the RSI is 100.
\<close>

lemma rsi_formula:
  assumes "0 \<le> G" and "0 \<le> L"
  shows "fl_sub (Fin 100) (fl_div (Fin 100) (fl_add (Fin 1) (fl_div (Fin G) (Fin L)))) =
    (if L = 0 then (if G = 0 then NaN else Fin 100) else Fin (100 - 100 / (1 + G / L)))"
proof -
  have "0 < 1 + G / L"
  proof -
    from assms have "0 \<le> G / L" by simp
    then show ?thesis by linarith
  qed
  with assms show ?thesis by (auto simp: fl_div_def fl_sub_def)
qed

lemma rsi_formula_code:
  assumes "0 \<le> G" and "0 \<le> L"
  shows "fl_sub (Fin 100)
      (fl_div (Fin 100) (fl_add (Fin 1) (fl_div (Fin G) (if L = 0 then NZero else Fin L)))) =
    (if L = 0 then (if G = 0 then NaN else Fin 100) else Fin (100 - 100 / (1 + G / L)))"
proof (cases "L = 0")
  case True
  with assms show ?thesis by (auto simp: fl_div_def fl_sub_def)
next
  case False
  with rsi_formula [OF assms] show ?thesis by simp
qed

lemma rsi_reference_cases:
  "rsi_reference cs i =
    (if ref_mean14 (ref_loss cs) i = 0
     then (if ref_mean14 (ref_gain cs) i = 0 then NaN else Fin 100)
     else Fin (100 - 100 / (1 + ref_mean14 (ref_gain cs) i / ref_mean14 (ref_loss cs) i)))"
  unfolding rsi_reference_def
  by (rule rsi_formula) (simp_all add: ref_mean14_nonneg ref_gain_nonneg ref_loss_nonneg)

lemma nth_compute_RSI:
  assumes "i < length cs"
  shows "compute_RSI (map Fin cs) ! i = (if i < 13 then NaN else rsi_reference cs i)"
proof (cases "i < 13")
  case True
  have "length (rsi_RS 14 (map Fin cs)) = length cs"
    by (simp add: rsi_RS_def rsi_gain_def rsi_loss_def where_cond_def)
  with True assms show ?thesis
    by (simp add: compute_RSI_def compute_RSI_period_def nth_rsi_RS fl_div_def fl_sub_def)
next
  case False
  let ?G = "ref_mean14 (ref_gain cs) i"
  let ?L = "ref_mean14 (ref_loss cs) i"
  have len: "length (rsi_RS 14 (map Fin cs)) = length cs"
    by (simp add: rsi_RS_def rsi_gain_def rsi_loss_def where_cond_def)
  have "compute_RSI (map Fin cs) ! i =
      fl_sub (Fin 100)
        (fl_div (Fin 100) (fl_add (Fin 1) (fl_div (Fin ?G) (if ?L = 0 then NZero else Fin ?L))))"
    using assms False len
    by (simp add: compute_RSI_def compute_RSI_period_def nth_rsi_RS)
  also have "\<dots> = rsi_reference cs i"
    unfolding rsi_reference_cases
    by (rule rsi_formula_code) (simp_all add: ref_mean14_nonneg ref_gain_nonneg ref_loss_nonneg)
  finally show ?thesis using False by simp
qed

section \<open>Rows of the frame\<close>

lemma length_indicators [simp]: "length (indicators os) = length os"
  by (simp add: indicators_def Let_def)

lemma length_indicators_base [simp]: "length (indicators_base os sent) = length os"
  by (simp add: indicators_base_def Let_def)

lemma nth_indicators:
  assumes "i < length os"
  shows "indicators os ! i =
    \<lparr>Date = obs_date (os ! i), Close = Fin (obs_close (os ! i)),
     MA20 = rolling_mean 20 (map Fin (map obs_close os)) ! i,
     MA50 = rolling_mean 50 (map Fin (map obs_close os)) ! i,
     RSI = compute_RSI (map Fin (map obs_close os)) ! i\<rparr>"
  using assms by (simp add: indicators_def Let_def del: map_map)

lemma nth_indicators_base:
  assumes "i < length os"
  shows "indicators_base os sent ! i =
    \<lparr>Date = Date (indicators os ! i), Close = Close (indicators os ! i),
     MA20 = MA20 (indicators os ! i), MA50 = MA50 (indicators os ! i),
     RSI = RSI (indicators os ! i), Sentiment = Fin (sent i)\<rparr>"
  using assms by (simp add: nth_indicators indicators_base_def Let_def del: map_map)

section \<open>The shape of the feature table\<close>

text \<open>
  The second \<open>dropna\<close> finds nothing to drop: no cell is NaN after the first one, and
  \<open>Target\<close> is an integer. The enhanced table is the base table under a constant score.
\<close>

lemma fl_lt_NaN [simp]: "fl_lt x NaN = False"
  by (cases x) simp_all

lemma length_shift_m1 [simp]: "length (shift_m1 cs) = length cs"
  by (cases cs) simp_all

lemma nth_shift_m1:
  "i < length cs \<Longrightarrow> shift_m1 cs ! i = (if Suc i < length cs then cs ! Suc i else NaN)"
  by (cases cs) (auto simp: nth_append)

lemma length_target_column [simp]: "length (target_column cs) = length cs"
  by (simp add: target_column_def)

lemma nth_target_column:
  "i < length cs \<Longrightarrow>
   target_column cs ! i = (if Suc i < length cs \<and> fl_gt (cs ! Suc i) (cs ! i) then 1 else 0)"
  by (simp add: target_column_def nth_shift_m1 fl_gt_def)

lemma length_add_target [simp]: "length (add_target rows) = length rows"
  by (simp add: add_target_def)

lemma nth_add_target:
  "i < length rows \<Longrightarrow>
   add_target rows ! i =
     \<lparr>Date = Date (rows ! i), Close = Close (rows ! i), MA20 = MA20 (rows ! i),
      MA50 = MA50 (rows ! i), RSI = RSI (rows ! i), Sentiment = Sentiment (rows ! i),
      Target = target_column (map Close rows) ! i\<rparr>"
  by (simp add: add_target_def)

lemma dropna_clean: "r \<in> set (dropna cells rows) \<Longrightarrow> \<not> list_ex isna (cells r)"
  by (simp add: dropna_def)

lemma dropna_add_target:
  assumes "\<forall>r\<in>set rows. \<not> list_ex isna (sent_cells r)"
  shows "dropna sent_cells (add_target rows) = add_target rows"
proof -
  have "\<not> list_ex isna (sent_cells r)" if "r \<in> set (add_target rows)" for r
  proof -
    from that obtain i where i: "i < length rows" and r: "r = add_target rows ! i"
      by (auto simp: in_set_conv_nth)
    from i assms have "\<not> list_ex isna (sent_cells (rows ! i))" by simp
    with i r show ?thesis by (simp add: nth_add_target sent_cells_def)
  qed
  then show ?thesis by (simp add: dropna_def)
qed

lemma feature_table_base_eq:
  "feature_table_base os sent = add_target (dropna sent_cells (indicators_base os sent))"
  unfolding feature_table_base_def by (rule dropna_add_target) (simp add: dropna_clean)

lemma add_sentiment_clean:
  assumes "r \<in> set (add_sentiment avg (dropna ind_cells rows))"
  shows "\<not> list_ex isna (sent_cells r)"
proof -
  from assms obtain q where q: "q \<in> set (dropna ind_cells rows)"
    and r: "r = \<lparr>Date = Date q, Close = Close q, MA20 = MA20 q, MA50 = MA50 q, RSI = RSI q,
                Sentiment = Fin avg\<rparr>"
    by (auto simp: add_sentiment_def)
  from dropna_clean [OF q] r show ?thesis
    by (simp add: sent_cells_def ind_cells_def isna_def)
qed

lemma feature_table_enhanced_eq:
  "feature_table_enhanced os avg =
     add_target (add_sentiment avg (dropna ind_cells (indicators os)))"
  unfolding feature_table_enhanced_def
  by (rule dropna_add_target) (simp add: add_sentiment_clean)

lemma filter_nth: "filter P xs = map ((!) xs) (filter (\<lambda>i. P (xs ! i)) [0..<length xs])"
proof -
  have "filter P (map ((!) xs) [0..<length xs]) =
      map ((!) xs) (filter (P \<circ> (!) xs) [0..<length xs])"
    by (rule filter_map)
  then show ?thesis by (simp add: map_nth comp_def)
qed

lemma keep_base:
  "i < length os \<Longrightarrow>
   list_ex isna (sent_cells (indicators_base os sent ! i)) =
   list_ex isna (ind_cells (indicators os ! i))"
  by (simp add: nth_indicators_base sent_cells_def ind_cells_def isna_def)

lemma dropna_base_nth:
  "dropna sent_cells (indicators_base os sent) =
     map ((!) (indicators_base os sent))
       (filter (\<lambda>i. \<not> list_ex isna (ind_cells (indicators os ! i))) [0..<length os])"
proof -
  have "filter (\<lambda>i. \<not> list_ex isna (sent_cells (indicators_base os sent ! i))) [0..<length os] =
      filter (\<lambda>i. \<not> list_ex isna (ind_cells (indicators os ! i))) [0..<length os]"
    by (rule filter_cong) (simp_all add: keep_base)
  then show ?thesis
    using filter_nth [of "\<lambda>r. \<not> list_ex isna (sent_cells r)" "indicators_base os sent"]
    by (simp add: dropna_def)
qed

lemma dropna_ind_nth:
  "dropna ind_cells (indicators os) =
     map ((!) (indicators os))
       (filter (\<lambda>i. \<not> list_ex isna (ind_cells (indicators os ! i))) [0..<length os])"
  using filter_nth [of "\<lambda>r. \<not> list_ex isna (ind_cells r)" "indicators os"]
  by (simp add: dropna_def)

lemma enhanced_eq_base:
  "feature_table_enhanced os avg = feature_table_base os (\<lambda>i. avg)"
proof -
  have "add_sentiment avg (dropna ind_cells (indicators os)) =
      dropna sent_cells (indicators_base os (\<lambda>i. avg))"
    unfolding dropna_base_nth dropna_ind_nth add_sentiment_def
    by (simp add: nth_indicators_base)
  then show ?thesis
    by (simp add: feature_table_enhanced_eq feature_table_base_eq)
qed

section \<open>When a row survives\<close>

lemma ref_mean14_eq_0_iff:
  assumes "\<And>j. 0 \<le> f j"
  shows "ref_mean14 f i = 0 \<longleftrightarrow> (\<forall>j\<in>{i - 13..i}. f j = 0)"
proof -
  have "sum_list (map f [i - 13..<i + 1]) = 0 \<longleftrightarrow> (\<forall>x\<in>set (map f [i - 13..<i + 1]). x = 0)"
    by (rule sum_list_nonneg_eq_0_iff) (use assms in auto)
  then show ?thesis by (auto simp: ref_mean14_def)
qed

lemma gain_loss_zero_iff:
  "ref_gain cs j = 0 \<and> ref_loss cs j = 0 \<longleftrightarrow> (0 < j \<longrightarrow> cs ! j = cs ! (j - 1))"
  by (auto simp: ref_gain_def ref_loss_def ref_delta_def)

lemma rsi_reference_NaN_iff:
  "rsi_reference cs i = NaN \<longleftrightarrow> (\<forall>j\<in>{i - 13..i}. 0 < j \<longrightarrow> cs ! j = cs ! (j - 1))"
proof -
  have "rsi_reference cs i = NaN \<longleftrightarrow>
      ref_mean14 (ref_gain cs) i = 0 \<and> ref_mean14 (ref_loss cs) i = 0"
    by (simp add: rsi_reference_cases)
  also have "\<dots> \<longleftrightarrow> (\<forall>j\<in>{i - 13..i}. ref_gain cs j = 0 \<and> ref_loss cs j = 0)"
    by (auto simp: ref_mean14_eq_0_iff ref_gain_nonneg ref_loss_nonneg)
  also have "\<dots> \<longleftrightarrow> (\<forall>j\<in>{i - 13..i}. 0 < j \<longrightarrow> cs ! j = cs ! (j - 1))"
    by (simp only: gain_loss_zero_iff)
  finally show ?thesis .
qed

lemma keep_iff:
  assumes "i < length os"
  shows "list_ex isna (ind_cells (indicators os ! i)) \<longleftrightarrow>
    i < 49 \<or> (\<forall>j\<in>{i - 13..i}. obs_close (os ! j) = obs_close (os ! (j - 1)))"
proof (cases "i < 49")
  case True
  with assms show ?thesis
    by (simp add: nth_indicators ind_cells_def isna_def nth_rolling_mean_Fin del: map_map)
next
  case False
  have "(\<forall>j\<in>{i - 13..i}. 0 < j \<longrightarrow> map obs_close os ! j = map obs_close os ! (j - 1)) \<longleftrightarrow>
      (\<forall>j\<in>{i - 13..i}. obs_close (os ! j) = obs_close (os ! (j - 1)))"
    using False assms by (intro ball_cong refl) auto
  with False assms show ?thesis
    by (simp add: nth_indicators ind_cells_def isna_def nth_rolling_mean_Fin nth_compute_RSI
        rsi_reference_NaN_iff del: map_map)
qed

section \<open>Columns of the feature table\<close>

lemma Close_add_target: "map Close (add_target rows) = map Close rows"
  by (rule nth_equalityI) (simp_all add: nth_add_target)

lemma Date_add_target: "map Date (add_target rows) = map Date rows"
  by (rule nth_equalityI) (simp_all add: nth_add_target)

lemma Target_add_target: "map Target (add_target rows) = target_column (map Close rows)"
  by (rule nth_equalityI) (simp_all add: nth_add_target)

lemma Close_kept:
  "map Close (dropna sent_cells (indicators_base os sent)) =
     map (\<lambda>i. Fin (map obs_close os ! i))
       (filter (\<lambda>i. \<not> (i < 49 \<or>
            (\<forall>j\<in>{i - 13..i}. map obs_close os ! j = map obs_close os ! (j - 1))))
          [0..<length (map obs_close os)])"
proof -
  have keep: "list_ex isna (ind_cells (indicators os ! i)) \<longleftrightarrow>
      i < 49 \<or> (\<forall>j\<in>{i - 13..i}. map obs_close os ! j = map obs_close os ! (j - 1))"
    if "i < length os" for i
  proof -
    have "(\<forall>j\<in>{i - 13..i}. map obs_close os ! j = map obs_close os ! (j - 1)) \<longleftrightarrow>
        (\<forall>j\<in>{i - 13..i}. obs_close (os ! j) = obs_close (os ! (j - 1)))"
      using that by (intro ball_cong refl) auto
    with that show ?thesis by (simp add: keep_iff)
  qed
  have "filter (\<lambda>i. \<not> list_ex isna (ind_cells (indicators os ! i))) [0..<length os] =
      filter (\<lambda>i. \<not> (i < 49 \<or>
            (\<forall>j\<in>{i - 13..i}. map obs_close os ! j = map obs_close os ! (j - 1))))
          [0..<length os]"
    by (rule filter_cong) (simp_all add: keep)
  then show ?thesis
    by (simp add: dropna_base_nth nth_indicators_base nth_indicators)
qed

lemma add_target_Nil_iff: "add_target rows = [] \<longleftrightarrow> rows = []"
  using length_add_target [of rows] by (simp only: flip: length_0_conv)

lemma table_nonempty_iff:
  "feature_table_base os sent \<noteq> [] \<longleftrightarrow>
     (\<exists>i j. 49 \<le> i \<and> i < length os \<and> i - 13 \<le> j \<and> j \<le> i \<and>
        obs_close (os ! j) \<noteq> obs_close (os ! (j - 1)))"
proof -
  have "feature_table_base os sent \<noteq> [] \<longleftrightarrow>
      (\<exists>i<length os. \<not> list_ex isna (ind_cells (indicators os ! i)))"
    by (auto simp: feature_table_base_eq add_target_Nil_iff dropna_base_nth filter_empty_conv)
  also have "\<dots> \<longleftrightarrow> (\<exists>i<length os. 49 \<le> i \<and>
      (\<exists>j\<in>{i - 13..i}. obs_close (os ! j) \<noteq> obs_close (os ! (j - 1))))"
    by (auto simp: keep_iff)
  also have "\<dots> \<longleftrightarrow> (\<exists>i j. 49 \<le> i \<and> i < length os \<and> i - 13 \<le> j \<and> j \<le> i \<and>
        obs_close (os ! j) \<noteq> obs_close (os ! (j - 1)))"
    unfolding Bex_def atLeastAtMost_iff by blast
  finally show ?thesis .
qed

section \<open>The demonstration series\<close>

lemma length_rising [simp]: "length (rising n) = n"
  by (simp add: rising_def)

lemma nth_rising [simp]: "i < n \<Longrightarrow> rising n ! i = \<lparr>obs_date = i, obs_close = 100 + real i\<rparr>"
  by (simp add: rising_def)

lemma length_flat [simp]: "length (flat n) = n"
  by (simp add: flat_def)

lemma nth_flat [simp]: "i < n \<Longrightarrow> flat n ! i = \<lparr>obs_date = i, obs_close = 100\<rparr>"
  by (simp add: flat_def)

lemma filter_upt_ge: "filter (\<lambda>i. k \<le> i) [0..<n] = [k..<n]"
  by (induction n) auto

lemma length_table:
  "length (feature_table_base os sent) =
     length (filter (\<lambda>i. \<not> list_ex isna (ind_cells (indicators os ! i))) [0..<length os])"
  by (simp add: feature_table_base_eq dropna_base_nth)

lemma rising_kept:
  "filter (\<lambda>i. \<not> list_ex isna (ind_cells (indicators (rising n) ! i))) [0..<n] = [49..<n]"
proof -
  have "list_ex isna (ind_cells (indicators (rising n) ! i)) \<longleftrightarrow> \<not> 49 \<le> i" if "i < n" for i
  proof (cases "49 \<le> i")
    case True
    with that have "obs_close (rising n ! i) \<noteq> obs_close (rising n ! (i - 1))" by simp
    then have "\<not> (\<forall>j\<in>{i - 13..i}. obs_close (rising n ! j) = obs_close (rising n ! (j - 1)))"
      by (meson atLeastAtMost_iff diff_le_self order_refl)
    with that True show ?thesis by (simp add: keep_iff)
  next
    case False
    with that show ?thesis by (simp add: keep_iff)
  qed
  then have "filter (\<lambda>i. \<not> list_ex isna (ind_cells (indicators (rising n) ! i))) [0..<n] =
      filter (\<lambda>i. 49 \<le> i) [0..<n]"
    by (intro filter_cong refl) simp
  then show ?thesis by (simp only: filter_upt_ge)
qed

lemma length_table_rising: "length (feature_table_base (rising n) sent) = n - 49"
  using rising_kept [of n] by (simp add: length_table)

lemma sorted_rising: "sorted_wrt (<) (map obs_close (rising n))"
  by (simp add: rising_def sorted_wrt_map sorted_wrt_iff_nth_less)

lemma sorted_dates_rising: "sorted_wrt (<) (map obs_date (rising n))"
  by (simp add: rising_def sorted_wrt_map sorted_wrt_iff_nth_less)

section \<open>The label\<close>

lemma base_label_rule:
  assumes "Suc i < length (feature_table_base os sent)"
  shows "Target (feature_table_base os sent ! i) =
    (if fl_gt (Close (feature_table_base os sent ! Suc i)) (Close (feature_table_base os sent ! i))
     then 1 else 0)"
  using assms by (simp add: feature_table_base_eq nth_add_target nth_target_column)

text \<open>
  Claim C1. In the feature table of either notebook, every row but the last has a label in
  \<open>{0, 1}\<close>, and the label is 1 exactly when the close of the next row of the table is
  greater than the close of the row.
\<close>

theorem label_next_close:
  assumes "T = feature_table_base os sent \<or> T = feature_table_enhanced os avg"
    and "Suc i < length T"
  shows "Target (T ! i) \<in> {0, 1} \<and>
    (Target (T ! i) = 1 \<longleftrightarrow> fl_gt (Close (T ! Suc i)) (Close (T ! i)))"
proof -
  from assms(1) obtain s where "T = feature_table_base os s"
    by (auto simp: enhanced_eq_base)
  with assms(2) show ?thesis by (simp add: base_label_rule)
qed

theorem label_next_close_witness:
  "Suc 0 < length (feature_table_enhanced (rising 51) (45 / 100)) \<and>
   Target (feature_table_enhanced (rising 51) (45 / 100) ! 0) \<in> {0, 1} \<and>
   (Target (feature_table_enhanced (rising 51) (45 / 100) ! 0) = 1 \<longleftrightarrow>
      fl_gt (Close (feature_table_enhanced (rising 51) (45 / 100) ! Suc 0))
        (Close (feature_table_enhanced (rising 51) (45 / 100) ! 0)))"
proof -
  have len: "Suc 0 < length (feature_table_enhanced (rising 51) (45 / 100))"
    by (simp add: enhanced_eq_base length_table_rising)
  from label_next_close [OF disjI2 [OF refl] len] len show ?thesis by blast
qed

lemma Close_indicators_base:
  "map Close (indicators_base os sent) = map Fin (map obs_close os)"
  by (rule nth_equalityI) (simp_all add: nth_indicators_base nth_indicators)

lemma Date_indicators_base: "map Date (indicators_base os sent) = map obs_date os"
  by (rule nth_equalityI) (simp_all add: nth_indicators_base nth_indicators)

lemma sorted_Close_table:
  assumes "sorted_wrt (<) (map obs_close os)"
  shows "sorted_wrt (\<lambda>a b. fl_lt (Close a) (Close b)) (feature_table_base os sent)"
proof -
  have "sorted_wrt (\<lambda>a b. fl_lt a b) (map Fin (map obs_close os))"
    using assms by (simp add: sorted_wrt_map)
  then have "sorted_wrt fl_lt (map Close (indicators_base os sent))"
    by (simp only: Close_indicators_base)
  then have "sorted_wrt (\<lambda>a b. fl_lt (Close a) (Close b)) (indicators_base os sent)"
    by (simp only: sorted_wrt_map)
  then have "sorted_wrt (\<lambda>a b. fl_lt (Close a) (Close b))
      (dropna sent_cells (indicators_base os sent))"
    by (simp add: dropna_def sorted_wrt_filter)
  then have "sorted_wrt fl_lt (map Close (add_target (dropna sent_cells (indicators_base os sent))))"
    by (simp only: Close_add_target sorted_wrt_map)
  then show ?thesis by (simp only: feature_table_base_eq sorted_wrt_map)
qed

lemma sorted_Date_table:
  assumes "sorted_wrt (<) (map obs_date os)"
  shows "sorted_wrt (<) (map Date (feature_table_base os sent))"
proof -
  have "sorted_wrt (<) (map Date (indicators_base os sent))"
    using assms by (simp only: Date_indicators_base)
  then have "sorted_wrt (\<lambda>a b. Date a < Date b) (indicators_base os sent)"
    by (simp only: sorted_wrt_map)
  then have "sorted_wrt (\<lambda>a b. Date a < Date b) (dropna sent_cells (indicators_base os sent))"
    by (simp add: dropna_def sorted_wrt_filter)
  then show ?thesis by (simp only: feature_table_base_eq Date_add_target sorted_wrt_map)
qed

text \<open>
  Claim C9. When the closes of the price series rise strictly, every row of the feature
  table but the last has label 1.
\<close>

theorem rising_labels_one:
  assumes "sorted_wrt (<) (map obs_close os)"
    and "T = feature_table_base os sent \<or> T = feature_table_enhanced os avg"
    and "Suc i < length T"
  shows "Target (T ! i) = 1"
proof -
  from assms(2) obtain s where T: "T = feature_table_base os s"
    by (auto simp: enhanced_eq_base)
  have "sorted_wrt (\<lambda>a b. fl_lt (Close a) (Close b)) T"
    unfolding T using assms(1) by (rule sorted_Close_table)
  with assms(3) have "fl_lt (Close (T ! i)) (Close (T ! Suc i))"
    using sorted_wrt_nth_less [of _ T i "Suc i"] by simp
  with assms(3) show ?thesis
    unfolding T by (simp add: base_label_rule fl_gt_def)
qed

theorem rising_labels_one_witness:
  "sorted_wrt (<) (map obs_close (rising 52)) \<and>
   Suc 1 < length (feature_table_base (rising 52) (\<lambda>i. 0)) \<and>
   Target (feature_table_base (rising 52) (\<lambda>i. 0) ! 1) = 1"
proof -
  have len: "Suc 1 < length (feature_table_base (rising 52) (\<lambda>i. 0))"
    by (simp add: length_table_rising)
  from rising_labels_one [OF sorted_rising disjI1 [OF refl] len] sorted_rising len
  show ?thesis by blast
qed

text \<open>
  Claim C8. The label column is determined by the sequence of closes: two runs whose price
  series have the same closes have the same label column, whatever the sentiment scores
  (and the dates) are.
\<close>

theorem labels_from_closes_only:
  assumes "map obs_close os1 = map obs_close os2"
  shows "map Target (feature_table_base os1 s1) = map Target (feature_table_base os2 s2) \<and>
    map Target (feature_table_enhanced os1 a1) = map Target (feature_table_enhanced os2 a2)"
proof -
  have "map Target (feature_table_base os1 s) = map Target (feature_table_base os2 s')" for s s'
    by (simp only: feature_table_base_eq Target_add_target Close_kept assms)
  then show ?thesis by (simp only: enhanced_eq_base)
qed

theorem labels_from_closes_only_witness:
  "map obs_close (rising 51) = map obs_close (map (\<lambda>ob. ob\<lparr>obs_date := obs_date ob + 7\<rparr>) (rising 51)) \<and>
   map Target (feature_table_base (rising 51) (\<lambda>i. 0)) =
     map Target (feature_table_base (map (\<lambda>ob. ob\<lparr>obs_date := obs_date ob + 7\<rparr>) (rising 51)) (\<lambda>i. 1 / 2)) \<and>
   map Target (feature_table_enhanced (rising 51) 0) =
     map Target (feature_table_enhanced (map (\<lambda>ob. ob\<lparr>obs_date := obs_date ob + 7\<rparr>) (rising 51)) (45 / 100))"
proof -
  have eq: "map obs_close (rising 51) =
      map obs_close (map (\<lambda>ob. ob\<lparr>obs_date := obs_date ob + 7\<rparr>) (rising 51))"
    by simp
  from labels_from_closes_only [OF eq] eq show ?thesis by blast
qed

section \<open>Definedness of the feature table\<close>

text \<open>
  Claim C6, as amended. For any input price sequence, of length at least 50 or not, no
  float cell of the feature table is NaN: the close, both moving averages, the RSI and the
  sentiment are all defined in every row (the date and the integer label cannot be
  missing). The table may be empty.
\<close>

theorem table_no_undefined:
  assumes "T = feature_table_base os sent \<or> T = feature_table_enhanced os avg"
  shows "\<forall>r\<in>set T. \<forall>c\<in>set (sent_cells r). \<not> isna c"
proof -
  have "\<not> list_ex isna (sent_cells r)" if "r \<in> set T" for r
    using that assms
    by (auto simp: feature_table_base_def feature_table_enhanced_def dest: dropna_clean)
  then show ?thesis by (simp add: list_ex_iff)
qed

theorem table_no_undefined_witness:
  "50 \<le> length (rising 51) \<and> feature_table_enhanced (rising 51) (45 / 100) \<noteq> [] \<and>
   \<not> isna (MA50 (hd (feature_table_enhanced (rising 51) (45 / 100)))) \<and>
   \<not> isna (RSI (hd (feature_table_enhanced (rising 51) (45 / 100))))"
proof -
  let ?T = "feature_table_enhanced (rising 51) (45 / 100)"
  have "length ?T = 2" by (simp add: enhanced_eq_base length_table_rising)
  then have ne: "?T \<noteq> []" by auto
  then have "hd ?T \<in> set ?T" by simp
  with table_no_undefined [OF disjI2 [OF refl], of "rising 51" "45 / 100"]
  have "\<forall>c\<in>set (sent_cells (hd ?T)). \<not> isna c" by blast
  then have "\<not> isna (MA50 (hd ?T)) \<and> \<not> isna (RSI (hd ?T))" by (simp add: sent_cells_def)
  with ne show ?thesis by simp
qed

text \<open>
  The claim as stated fails on 50 days of one constant close: the gain/loss ratio is 0/0 in
  every window, every RSI is NaN, and \<open>dropna\<close> leaves no row.
\<close>

theorem flat_series_empty_table:
  "50 \<le> length (flat 50) \<and> feature_table_enhanced (flat 50) (45 / 100) = [] \<and>
   feature_table_base (flat 50) (\<lambda>i. 0) = []"
proof -
  have "\<not> (\<exists>i j. 49 \<le> i \<and> i < length (flat 50) \<and> i - 13 \<le> j \<and> j \<le> i \<and>
      obs_close (flat 50 ! j) \<noteq> obs_close (flat 50 ! (j - 1)))"
    by auto
  then have "feature_table_base (flat 50) s = []" for s
    using table_nonempty_iff [of "flat 50" s] by blast
  then show ?thesis by (simp add: enhanced_eq_base)
qed

section \<open>The row of the last trading day\<close>

text \<open>
  The comparison with the NaN that \<open>shift(-1)\<close> puts in the last row is False, and
  \<open>astype(int)\<close> makes it 0: the label of the last row is not missing, and the second
  \<open>dropna\<close> keeps the row.
\<close>

lemma last_day_kept:
  assumes "os \<noteq> []"
    and "\<not> list_ex isna (ind_cells (indicators os ! (length os - 1)))"
  shows "feature_table_base os sent \<noteq> [] \<and>
    Date (last (feature_table_base os sent)) = obs_date (last os) \<and>
    Target (last (feature_table_base os sent)) = 0"
proof -
  let ?P = "\<lambda>i. \<not> list_ex isna (ind_cells (indicators os ! i))"
  let ?IB = "indicators_base os sent"
  define m where "m = length os - 1"
  with assms(1) have n: "length os = Suc m" by simp
  let ?ks = "filter ?P [0..<m] @ [m]"
  let ?rows = "map ((!) ?IB) ?ks"
  have ks: "filter ?P [0..<length os] = ?ks"
    using assms(2) by (simp add: n m_def [symmetric])
  have T: "feature_table_base os sent = add_target ?rows"
    by (simp only: feature_table_base_eq dropna_base_nth ks)
  have len: "length ?rows = Suc (length (filter ?P [0..<m]))" by simp
  have lastT: "last (add_target ?rows) = add_target ?rows ! length (filter ?P [0..<m])"
    using len by (simp add: last_conv_nth add_target_Nil_iff)
  have lastrow: "?rows ! length (filter ?P [0..<m]) = ?IB ! m"
    by (simp add: nth_append)
  have "Date (?IB ! m) = obs_date (last os)"
    using n assms(1) by (simp add: nth_indicators_base nth_indicators last_conv_nth)
  with lastrow have "Date (last (add_target ?rows)) = obs_date (last os)"
    unfolding lastT using len by (simp add: nth_add_target del: map_append)
  moreover have "Target (last (add_target ?rows)) = 0"
    unfolding lastT using len by (simp add: nth_add_target nth_target_column del: map_append)
  moreover have "add_target ?rows \<noteq> []" by (simp add: add_target_Nil_iff)
  ultimately show ?thesis unfolding T by blast
qed

text \<open>
  Claim C2 at a rising series of 51 days: the last row of the feature table is the row of
  the last trading day (day 50), with label 0.
\<close>

theorem last_day_row_stays:
  "obs_date (last (rising 51)) = 50 \<and>
   Date (last (feature_table_base (rising 51) (\<lambda>i. 0))) = 50 \<and>
   Target (last (feature_table_base (rising 51) (\<lambda>i. 0))) = 0 \<and>
   Date (last (feature_table_enhanced (rising 51) (45 / 100))) = 50 \<and>
   Target (last (feature_table_enhanced (rising 51) (45 / 100))) = 0"
proof -
  have ne: "rising 51 \<noteq> []" by (simp add: rising_def)
  have "obs_close (rising 51 ! 50) \<noteq> obs_close (rising 51 ! (50 - 1))" by simp
  then have "\<not> (\<forall>j\<in>{50 - 13..50}. obs_close (rising 51 ! j) = obs_close (rising 51 ! (j - 1)))"
    by (meson atLeastAtMost_iff diff_le_self order_refl)
  then have keep: "\<not> list_ex isna (ind_cells (indicators (rising 51) ! (length (rising 51) - 1)))"
    by (simp add: keep_iff)
  have "obs_date (last (rising 51)) = 50" by (simp add: last_conv_nth ne)
  with last_day_kept [OF ne keep] show ?thesis by (simp add: enhanced_eq_base)
qed

section \<open>RSI against its reference\<close>

text \<open>
  Claim C5. On every price series the RSI column of the frame is what \<open>compute_RSI\<close>
  returns on the closes, and from row 13 on, where the 14-row means exist, that is the
  reference RSI: 100 minus 100 over 1 plus the ratio of the mean gain to the mean loss.
  Before row 13 the cell is NaN.
\<close>

theorem rsi_is_reference:
  assumes "i < length os"
  shows "compute_RSI (map Fin (map obs_close os)) ! i =
      (if i < 13 then NaN else rsi_reference (map obs_close os) i) \<and>
    RSI (indicators os ! i) = compute_RSI (map Fin (map obs_close os)) ! i \<and>
    RSI (indicators_base os sent ! i) = compute_RSI (map Fin (map obs_close os)) ! i"
  using assms nth_compute_RSI [of i "map obs_close os"]
  by (simp add: nth_indicators nth_indicators_base del: map_map)

theorem rsi_is_reference_witness:
  "14 < length (rising 16) \<and>
   compute_RSI (map Fin (map obs_close (rising 16))) ! 14 =
     rsi_reference (map obs_close (rising 16)) 14 \<and>
   RSI (indicators (rising 16) ! 14) = compute_RSI (map Fin (map obs_close (rising 16))) ! 14"
proof -
  have len: "14 < length (rising 16)" by simp
  from rsi_is_reference [OF len] len show ?thesis by simp
qed

section \<open>RSI at a zero mean loss\<close>





section \<open>The split\<close>

lemma n_test_eq: "nat \<lceil>(2 / 10) * real n\<rceil> = (n + 4) div 5"
proof -
  have "(2 / 10) * real n = real_of_int (int n) / real_of_int 5" by simp
  then have "\<lceil>(2 / 10) * real n\<rceil> = - (- int n div 5)"
    by (simp only: ceiling_divide_eq_div)
  then show ?thesis by linarith
qed

lemma train_test_split_cases:
  "train_test_split arr =
    (if length arr < 2 then Inl ValueError
     else Inr (take (length arr - (length arr + 4) div 5) arr,
               drop (length arr - (length arr + 4) div 5) arr))"
proof -
  let ?n = "length arr"
  let ?t = "(?n + 4) div 5"
  have "?t \<le> ?n" by linarith
  then have "take ?t (drop (?n - ?t) arr) = drop (?n - ?t) arr" by simp
  moreover have "?n - ?t = 0 \<longleftrightarrow> ?n < 2" by linarith
  ultimately show ?thesis
    unfolding train_test_split_def Let_def n_test_eq by simp
qed

text \<open>
  Claim C4, as amended. Every feature table of at least two rows is divided at the 80/20
  point with no shuffling: the test part is the last fifth of the rows, rounded up, the
  training part is the rows before them, and each part keeps the order of the table. So
  when the table is in strict date order, every date of the test part is later than every
  date of the training part.
\<close>

theorem split_chronological:
  assumes "2 \<le> length tbl"
  shows "\<exists>train test. train_test_split tbl = Inr (train, test) \<and>
    train = take (length tbl - (length tbl + 4) div 5) tbl \<and>
    test = drop (length tbl - (length tbl + 4) div 5) tbl \<and>
    length test = (length tbl + 4) div 5 \<and>
    (sorted_wrt (<) (map Date tbl) \<longrightarrow> (\<forall>a\<in>set train. \<forall>b\<in>set test. Date a < Date b))"
proof -
  let ?k = "length tbl - (length tbl + 4) div 5"
  have order: "\<forall>a\<in>set (take ?k tbl). \<forall>b\<in>set (drop ?k tbl). Date a < Date b"
    if "sorted_wrt (<) (map Date tbl)"
  proof -
    have "sorted_wrt (\<lambda>a b. Date a < Date b) (take ?k tbl @ drop ?k tbl)"
      using that by (simp add: sorted_wrt_map)
    then show ?thesis by (simp only: sorted_wrt_append) blast
  qed
  have "(length tbl + 4) div 5 \<le> length tbl" by linarith
  with order assms show ?thesis
    by (auto simp: train_test_split_cases)
qed

theorem split_chronological_witness:
  "2 \<le> length (feature_table_enhanced (rising 60) (45 / 100)) \<and>
   sorted_wrt (<) (map Date (feature_table_enhanced (rising 60) (45 / 100))) \<and>
   (\<exists>train test.
      train_test_split (feature_table_enhanced (rising 60) (45 / 100)) = Inr (train, test) \<and>
      train = take 8 (feature_table_enhanced (rising 60) (45 / 100)) \<and>
      test = drop 8 (feature_table_enhanced (rising 60) (45 / 100)) \<and>
      length test = 3 \<and>
      (\<forall>a\<in>set train. \<forall>b\<in>set test. Date a < Date b))"
proof -
  let ?T = "feature_table_enhanced (rising 60) (45 / 100)"
  have srt: "sorted_wrt (<) (map Date ?T)"
    by (simp only: enhanced_eq_base sorted_Date_table sorted_dates_rising)
  have len: "length ?T = 11"
    by (simp add: enhanced_eq_base length_table_rising)
  then have two: "2 \<le> length ?T" by simp
  from split_chronological [OF two] srt len
  obtain train test where "train_test_split ?T = Inr (train, test)"
    and "train = take 8 ?T" and "test = drop 8 ?T" and "length test = 3"
    and "\<forall>a\<in>set train. \<forall>b\<in>set test. Date a < Date b"
    by auto
  with srt two show ?thesis by blast
qed

text \<open>
  The claim as stated fails on a feature table of one row, which the base notebook builds
  from a rising series of 50 days: the split raises ValueError and divides nothing.
\<close>

theorem single_row_split_raises:
  "length (feature_table_base (rising 50) (\<lambda>i. 0)) = 1 \<and>
   train_test_split (feature_table_base (rising 50) (\<lambda>i. 0)) = Inl ValueError"
proof -
  have "length (feature_table_base (rising 50) (\<lambda>i. 0)) = 1"
    by (simp add: length_table_rising)
  then show ?thesis
    by (auto simp: train_test_split_cases)
qed

text \<open>
  Claim C10, as amended. For every feature table of at least two rows the training part
  followed by the test part is the table itself, and neither part is empty.
\<close>

theorem split_partition:
  assumes "2 \<le> length tbl"
  shows "\<exists>train test. train_test_split tbl = Inr (train, test) \<and> train @ test = tbl \<and>
    train \<noteq> [] \<and> test \<noteq> []"
proof -
  have "(length tbl + 4) div 5 \<noteq> 0" "length tbl - (length tbl + 4) div 5 \<noteq> 0"
    using assms by linarith+
  with assms show ?thesis
    by (auto simp: train_test_split_cases)
qed

theorem split_partition_witness:
  "2 \<le> length (feature_table_enhanced (rising 51) (45 / 100)) \<and>
   (\<exists>train test.
      train_test_split (feature_table_enhanced (rising 51) (45 / 100)) = Inr (train, test) \<and>
      train @ test = feature_table_enhanced (rising 51) (45 / 100))"
proof -
  have len: "2 \<le> length (feature_table_enhanced (rising 51) (45 / 100))"
    by (simp add: enhanced_eq_base length_table_rising)
  from split_partition [OF len] len show ?thesis by blast
qed

text \<open>
  The claim as stated fails on a table of one row, which a rising series of 50 days gives:
  the table is not empty, the training part would be, and the split raises ValueError.
\<close>

theorem one_row_table_not_split:
  "feature_table_enhanced (rising 50) (45 / 100) \<noteq> [] \<and>
   train_test_split (feature_table_enhanced (rising 50) (45 / 100)) = Inl ValueError"
proof -
  have "length (feature_table_enhanced (rising 50) (45 / 100)) = 1"
    by (simp add: enhanced_eq_base length_table_rising)
  then show ?thesis
    by (auto simp: train_test_split_cases)
qed

section \<open>Headlines\<close>

lemma titles_ok:
  assumes "\<forall>a\<in>set arts. \<exists>t. getitem a ''title'' = Inr t"
  shows "\<exists>ts. titles arts = Inr ts \<and> map (\<lambda>a. getitem a ''title'') arts = map Inr ts"
  using assms
proof (induction arts)
  case Nil
  then show ?case by simp
next
  case (Cons a arts)
  then obtain t ts where "getitem a ''title'' = Inr t" and "titles arts = Inr ts"
    and "map (\<lambda>a. getitem a ''title'') arts = map Inr ts"
    by auto
  then show ?case by simp
qed

lemma fetch_success:
  assumes "requests_get (news_url q f t k) = Inr resp" and "status_code resp = 200"
    and "body resp = Some (JObj kvs)" and "map_of kvs ''articles'' = Some (JArr arts)"
    and "\<forall>a\<in>set arts. \<exists>t. getitem a ''title'' = Inr t"
  shows "\<exists>ts. fetch_live_headlines requests_get q f t k = Inr ts \<and>
    map (\<lambda>a. getitem a ''title'') arts = map Inr ts"
  using titles_ok [OF assms(5)] assms(1-4) by (simp add: fetch_live_headlines_def)

lemma fetch_failure:
  assumes "requests_get (news_url q f t k) = Inr resp" and "status_code resp \<noteq> 200"
  shows "fetch_live_headlines requests_get q f t k = Inr []"
  using assms by (simp add: fetch_live_headlines_def)

lemma live_headlines_nonempty:
  assumes "live_headlines requests_get y t = Inr hs"
  shows "hs \<noteq> []"
  using assms by (auto simp: live_headlines_def demo_headlines_def split: sum.splits if_splits)

text \<open>
  Claim C7. On a response with status 200 whose body lists articles with titles,
  \<open>fetch_live_headlines\<close> returns those titles in order; on a response with any other
  status it returns the empty list; an empty list is replaced by the demonstration
  headlines; so the headline list handed on to the sentiment step is never empty.
\<close>

theorem headlines_or_fallback:
  "(requests_get (news_url q f t k) = Inr resp \<and> status_code resp = 200 \<and>
      body resp = Some (JObj kvs) \<and> map_of kvs ''articles'' = Some (JArr arts) \<and>
      (\<forall>a\<in>set arts. \<exists>t. getitem a ''title'' = Inr t) \<longrightarrow>
      (\<exists>ts. fetch_live_headlines requests_get q f t k = Inr ts \<and>
         map (\<lambda>a. getitem a ''title'') arts = map Inr ts)) \<and>
   (requests_get (news_url q f t k) = Inr resp \<and> status_code resp \<noteq> 200 \<longrightarrow>
      fetch_live_headlines requests_get q f t k = Inr []) \<and>
   (fetch_live_headlines requests_get ''AAPL'' yesterday today ''YOUR_NEWS_API_KEY'' = Inr [] \<longrightarrow>
      live_headlines requests_get yesterday today = Inr demo_headlines) \<and>
   (\<forall>hs. live_headlines requests_get yesterday today = Inr hs \<longrightarrow> hs \<noteq> [])"
  using fetch_success [of requests_get q f t k resp kvs arts]
    fetch_failure [of requests_get q f t k resp]
    live_headlines_nonempty [of requests_get yesterday today]
  by (simp add: live_headlines_def)


theorem headlines_or_fallback_witness:
  "fetch_live_headlines (\<lambda>url. Inr found_response) ''AAPL'' ''2024-03-04'' ''2024-03-05''
     ''YOUR_NEWS_API_KEY'' = Inr [JStr ''Apple beats estimates''] \<and>
   live_headlines (\<lambda>url. Inr found_response) ''2024-03-04'' ''2024-03-05'' \<noteq> Inr [] \<and>
   fetch_live_headlines (\<lambda>url. Inr denied_response) ''AAPL'' ''2024-03-04'' ''2024-03-05''
     ''YOUR_NEWS_API_KEY'' = Inr [] \<and>
   live_headlines (\<lambda>url. Inr denied_response) ''2024-03-04'' ''2024-03-05'' = Inr demo_headlines"
proof -
  let ?ok = "\<lambda>url::string. (Inr found_response :: error + response)"
  let ?no = "\<lambda>url::string. (Inr denied_response :: error + response)"
  let ?arts = "[JObj [(''source'', JNull), (''title'', JStr ''Apple beats estimates'')]]"
  have h1: "?ok (news_url ''AAPL'' ''2024-03-04'' ''2024-03-05'' ''YOUR_NEWS_API_KEY'') =
        Inr found_response \<and> status_code found_response = 200 \<and>
      body found_response = Some (JObj [(''status'', JStr ''ok''), (''articles'', JArr ?arts)]) \<and>
      map_of [(''status'', JStr ''ok''), (''articles'', JArr ?arts)] ''articles'' =
        Some (JArr ?arts) \<and>
      (\<forall>a\<in>set ?arts. \<exists>t. getitem a ''title'' = Inr t)"
    by (simp add: found_response_def)
  have h2: "?no (news_url ''AAPL'' ''2024-03-04'' ''2024-03-05'' ''YOUR_NEWS_API_KEY'') =
        Inr denied_response \<and> status_code denied_response \<noteq> 200"
    by (simp add: denied_response_def)
  from headlines_or_fallback [of ?ok "''AAPL''" "''2024-03-04''" "''2024-03-05''"
      "''YOUR_NEWS_API_KEY''" found_response _ ?arts "''2024-03-04''" "''2024-03-05''"] h1
  obtain ts where ts: "fetch_live_headlines ?ok ''AAPL'' ''2024-03-04'' ''2024-03-05''
      ''YOUR_NEWS_API_KEY'' = Inr ts"
    and "map (\<lambda>a. getitem a ''title'') ?arts = map Inr ts"
    and ne: "\<forall>hs. live_headlines ?ok ''2024-03-04'' ''2024-03-05'' = Inr hs \<longrightarrow> hs \<noteq> []"
    by blast
  then have "ts = [JStr ''Apple beats estimates'']" by auto
  with ts have a: "fetch_live_headlines ?ok ''AAPL'' ''2024-03-04'' ''2024-03-05''
      ''YOUR_NEWS_API_KEY'' = Inr [JStr ''Apple beats estimates'']"
    by simp
  from ne have b: "live_headlines ?ok ''2024-03-04'' ''2024-03-05'' \<noteq> Inr []" by blast
  from headlines_or_fallback [of ?no "''AAPL''" "''2024-03-04''" "''2024-03-05''"
      "''YOUR_NEWS_API_KEY''" denied_response _ _ "''2024-03-04''" "''2024-03-05''"] h2
  have c: "fetch_live_headlines ?no ''AAPL'' ''2024-03-04'' ''2024-03-05''
      ''YOUR_NEWS_API_KEY'' = Inr []"
    and "fetch_live_headlines ?no ''AAPL'' ''2024-03-04'' ''2024-03-05''
        ''YOUR_NEWS_API_KEY'' = Inr [] \<longrightarrow>
      live_headlines ?no ''2024-03-04'' ''2024-03-05'' = Inr demo_headlines"
    by blast+
  then have d: "live_headlines ?no ''2024-03-04'' ''2024-03-05'' = Inr demo_headlines"
    by blast
  from a b c d show ?thesis by blast
qed

end
